theory Spec2Isabelle
  imports Complex_Main
begin

section \<open>Sidebar search (components/sidebar/Search.tsx)\<close>

subsection \<open>Data model\<close>

text \<open>
  An indexed item is a node of the story tree. Its \<open>type\<close> is one of five kinds;
  \<open>parent\<close> is optional (\<open>None\<close> stands for JavaScript's \<open>undefined\<close>).
\<close>

datatype entry_type = Component | Docs | Story | Group | Root

record index_item =
  item_id :: string
  item_name :: string
  item_type :: entry_type
  item_parent :: "string option"

text \<open>
  \<open>SearchItem\<close> (declared in \<open>./types\<close>) is an indexed item extended with the id of the
  reference it belongs to. The \<open>path\<close> and \<open>status\<close> fields are computed by code outside
  \<open>Search.tsx\<close> and read by nothing here; they are not represented.
\<close>

record search_item = index_item +
  refId :: string

type_synonym fuse_match = "string \<times> (nat \<times> nat) list"

record search_result =
  item :: search_item
  matches :: "fuse_match list"
  score :: rat

text \<open>
  The expand marker carries a zero-argument action \<open>showAll\<close>. The only action the widget
  ever stores there is a call of the state setter \<open>showAllComponents\<close>.
\<close>

datatype action = ShowAllComponents bool

record expand_type =
  showAll :: action
  totalCount :: nat
  moreCount :: nat

text \<open>
  \<open>DownshiftItem = SearchResult | ExpandType\<close>. The type guards \<open>isSearchResult\<close> and
  \<open>isExpandType\<close> of \<open>./types\<close> are the case distinction on this datatype.
\<close>

datatype downshift_item = Result search_result | Expand expand_type

text \<open>
  A reference dataset and the combined dataset. A JavaScript object used as a dictionary
  is the association list of its own properties; a property read on it is \<open>prop_get\<close>
  below. A reference may lack its \<open>index\<close>.
\<close>

record ref_data =
  ref_id :: string
  index :: "(string \<times> index_item) list option"

record combined_dataset =
  hash :: "(string \<times> ref_data) list"
  entries :: "(string \<times> ref_data) list"

type_synonym selection = "string \<times> string"   \<comment> \<open>\<open>(storyId, refId)\<close>\<close>

datatype error = TypeError string

text \<open>
  The widget's mutable surroundings: the React state \<open>allComponents\<close>, the input element
  behind \<open>inputRef.current\<close> (\<open>None\<close> when the ref is \<open>null\<close>; the boolean is whether the
  element has focus), and two logs recording every call of \<open>fuse.search\<close> and of
  \<open>api.selectStory\<close>. In the latter the second component is the \<open>ref\<close> option, \<open>None\<close>
  standing for \<open>false\<close>.
\<close>

record world =
  allComponents :: bool
  inputRef :: "bool option"
  search_calls :: "string list"
  selectStory_calls :: "(string \<times> string option) list"

text \<open>
  What a render closes over: whether \<open>useStorybookApi()\<close> returned an API object, and the
  constant \<open>DEFAULT_REF_ID\<close> imported from \<open>./Sidebar\<close>.
\<close>

record env =
  api :: bool
  DEFAULT_REF_ID :: string

definition DEFAULT_MAX_SEARCH_RESULTS :: nat where
  "DEFAULT_MAX_SEARCH_RESULTS = 50"

subsection \<open>getResults\<close>

text \<open>\<open>resultIds.has(item.parent)\<close>: the set holds strings only, so \<open>undefined\<close> is never in it.\<close>

definition has_parent :: "string set \<Rightarrow> string option \<Rightarrow> bool" where
  "has_parent resultIds p = (case p of None \<Rightarrow> False | Some k \<Rightarrow> k \<in> resultIds)"

definition searchable_type :: "entry_type \<Rightarrow> bool" where
  "searchable_type t = (t = Component \<or> t = Docs \<or> t = Story)"

text \<open>
  The \<open>filter\<close> callback of \<open>getResults\<close> reads and updates the set \<open>resultIds\<close>; the set
  is threaded through the traversal.
\<close>

fun distinctResults :: "string set \<Rightarrow> search_result list \<Rightarrow> search_result list" where
  "distinctResults resultIds [] = []"
| "distinctResults resultIds (r # rs) =
     (if \<not> searchable_type (item_type (item r)) \<or> has_parent resultIds (item_parent (item r))
      then distinctResults resultIds rs
      else r # distinctResults (insert (item_id (item r)) resultIds) rs)"

definition getResults ::
  "(string \<Rightarrow> search_result list) \<Rightarrow> string \<Rightarrow> world \<Rightarrow> downshift_item list \<times> world" where
  "getResults fuse input w =
     (if input = [] then ([], w)
      else
        let w1 = w\<lparr>search_calls := search_calls w @ [input]\<rparr>;
            ds = distinctResults {} (fuse input)
        in if ds \<noteq> [] then
             (let results = map Result (take (if allComponents w then 1000 else DEFAULT_MAX_SEARCH_RESULTS) ds)
              in if length ds > DEFAULT_MAX_SEARCH_RESULTS \<and> \<not> allComponents w
                 then (results @
                        [Expand \<lparr>showAll = ShowAllComponents True,
                                 totalCount = length ds,
                                 moreCount = length ds - DEFAULT_MAX_SEARCH_RESULTS\<rparr>], w1)
                 else (results, w1))
           else ([], w1))"

text \<open>The search-result entries of a result sequence, and its expand markers.\<close>

fun results_of :: "downshift_item list \<Rightarrow> search_result list" where
  "results_of [] = []"
| "results_of (Result r # ds) = r # results_of ds"
| "results_of (Expand e # ds) = results_of ds"

fun markers_of :: "downshift_item list \<Rightarrow> expand_type list" where
  "markers_of [] = []"
| "markers_of (Result r # ds) = markers_of ds"
| "markers_of (Expand e # ds) = e # markers_of ds"

text \<open>
  The algorithm in the words of the specification: first keep the matches of the three
  searchable types, then walk them in order with a set of seen ids.
\<close>

definition keep_searchable :: "search_result list \<Rightarrow> search_result list" where
  "keep_searchable ms = filter (\<lambda>m. item_type (item m) \<in> {Component, Docs, Story}) ms"

fun walk_seen :: "string set \<Rightarrow> search_result list \<Rightarrow> search_result list" where
  "walk_seen seen [] = []"
| "walk_seen seen (m # ms) =
     (case item_parent (item m) of
        None \<Rightarrow> m # walk_seen (insert (item_id (item m)) seen) ms
      | Some p \<Rightarrow>
          if p \<in> seen then walk_seen seen ms
          else m # walk_seen (insert (item_id (item m)) seen) ms)"

definition spec_distinct :: "search_result list \<Rightarrow> search_result list" where
  "spec_distinct ms = walk_seen {} (keep_searchable ms)"

text \<open>No two search-result entries share a parent id.\<close>

definition parent_ids :: "downshift_item list \<Rightarrow> string list" where
  "parent_ids ds = concat (map (\<lambda>r. case item_parent (item r) of None \<Rightarrow> [] | Some p \<Rightarrow> [p]) (results_of ds))"

definition no_shared_parent :: "downshift_item list \<Rightarrow> bool" where
  "no_shared_parent ds = distinct (parent_ids ds)"

subsection \<open>selectStory\<close>

text \<open>
  \<open>inputRef.current.blur()\<close>: a method call on \<open>null\<close> raises a \<open>TypeError\<close>; on the input
  element it removes the focus.
\<close>

definition blur :: "world \<Rightarrow> error + world" where
  "blur w = (case inputRef w of
               None \<Rightarrow> Inl (TypeError ''blur'')
             | Some focused \<Rightarrow> Inr (w\<lparr>inputRef := Some False\<rparr>))"

fun run_action :: "action \<Rightarrow> world \<Rightarrow> world" where
  "run_action (ShowAllComponents b) w = w\<lparr>allComponents := b\<rparr>"

text \<open>
  The \<open>ref\<close> option passed to \<open>api.selectStory\<close> is \<open>refId !== DEFAULT_REF_ID && refId\<close>.
\<close>

definition selectStory :: "env \<Rightarrow> string \<Rightarrow> string \<Rightarrow> world \<Rightarrow> error + world" where
  "selectStory e sid rid w =
     (let w1 = (if api e
                then w\<lparr>selectStory_calls := selectStory_calls w @
                         [(sid, if rid \<noteq> DEFAULT_REF_ID e then Some rid else None)]\<rparr>
                else w)
      in case blur w1 of
           Inl err \<Rightarrow> Inl err
         | Inr w2 \<Rightarrow> Inr (run_action (ShowAllComponents False) w2))"

subsection \<open>stateReducer\<close>

text \<open>
  The state of the autocomplete container, and a partial state: a field that is \<open>None\<close> is
  absent from the object. \<open>changes\<close> is a transition type with a partial state.
\<close>

record downshift_state =
  highlightedIndex :: "nat option"
  inputValue :: "string option"
  isOpen :: bool
  selectedItem :: "downshift_item option"

record state_changes =
  ch_highlightedIndex :: "nat option option"
  ch_inputValue :: "string option option"
  ch_isOpen :: "bool option"
  ch_selectedItem :: "downshift_item option option"

datatype change_type =
  BlurInput | MouseUp | KeyDownEscape | ClickItem | KeyDownEnter | ChangeInput | OtherChange

definition no_changes :: state_changes where
  "no_changes = \<lparr>ch_highlightedIndex = None, ch_inputValue = None, ch_isOpen = None,
                  ch_selectedItem = None\<rparr>"

text \<open>JavaScript truthiness of \<open>string | null\<close>.\<close>

definition truthy :: "string option \<Rightarrow> bool" where
  "truthy v = (case v of None \<Rightarrow> False | Some s \<Rightarrow> s \<noteq> [])"

text \<open>
  The branch shared by \<open>clickItem\<close> and \<open>keyDownEnter\<close>. \<open>changes.selectedItem\<close> may be
  absent or \<open>null\<close>; then neither type guard holds and \<open>changes\<close> is returned as it is.
\<close>

definition select_item ::
  "env \<Rightarrow> downshift_state \<Rightarrow> state_changes \<Rightarrow> world \<Rightarrow> error + state_changes \<times> world" where
  "select_item e state ch w =
     (case ch_selectedItem ch of
        Some (Some (Result r)) \<Rightarrow>
          (case selectStory e (item_id (item r)) (refId (item r)) w of
             Inl err \<Rightarrow> Inl err
           | Inr w1 \<Rightarrow> Inr (ch\<lparr>ch_inputValue := Some (inputValue state), ch_isOpen := Some False\<rparr>, w1))
      | Some (Some (Expand m)) \<Rightarrow> Inr (no_changes, run_action (showAll m) w)
      | other \<Rightarrow> Inr (ch, w))"

fun stateReducer ::
  "env \<Rightarrow> downshift_state \<Rightarrow> change_type \<times> state_changes \<Rightarrow> world \<Rightarrow> error + state_changes \<times> world" where
  "stateReducer e state (BlurInput, ch) w =
     Inr (ch\<lparr>ch_inputValue := Some (inputValue state),
             ch_isOpen := Some (truthy (inputValue state) \<and> selectedItem state = None),
             ch_selectedItem := Some None\<rparr>, w)"
| "stateReducer e state (MouseUp, ch) w = Inr (no_changes, w)"
| "stateReducer e state (KeyDownEscape, ch) w =
     (if truthy (inputValue state)
      then Inr (ch\<lparr>ch_inputValue := Some (Some []), ch_isOpen := Some True,
                   ch_selectedItem := Some None\<rparr>, w)
      else case blur w of
             Inl err \<Rightarrow> Inl err
           | Inr w1 \<Rightarrow> Inr (ch\<lparr>ch_isOpen := Some False, ch_selectedItem := Some None\<rparr>, w1))"
| "stateReducer e state (ClickItem, ch) w = select_item e state ch w"
| "stateReducer e state (KeyDownEnter, ch) w = select_item e state ch w"
| "stateReducer e state (ChangeInput, ch) w = Inr (ch, run_action (ShowAllComponents False) w)"
| "stateReducer e state (OtherChange, ch) w = Inr (ch, w)"

text \<open>
  The container (Downshift, a third-party library) merges the object returned by the
  reducer into its state: the fields present in the returned partial state overwrite the
  container's, the absent ones keep their value. An empty object changes nothing.
\<close>

definition apply_changes :: "downshift_state \<Rightarrow> state_changes \<Rightarrow> downshift_state" where
  "apply_changes st ch =
     \<lparr>highlightedIndex = (case ch_highlightedIndex ch of None \<Rightarrow> highlightedIndex st | Some v \<Rightarrow> v),
      inputValue = (case ch_inputValue ch of None \<Rightarrow> inputValue st | Some v \<Rightarrow> v),
      isOpen = (case ch_isOpen ch of None \<Rightarrow> isOpen st | Some v \<Rightarrow> v),
      selectedItem = (case ch_selectedItem ch of None \<Rightarrow> selectedItem st | Some v \<Rightarrow> v)\<rparr>"

text \<open>
  One transition of the container with the reducer as override: the reducer's answer is
  merged into the state; an exception raised in the reducer leaves no next state.
\<close>

definition transition ::
  "env \<Rightarrow> downshift_state \<Rightarrow> change_type \<times> state_changes \<Rightarrow> world \<Rightarrow> (downshift_state \<times> world) option" where
  "transition e st changes w =
     (case stateReducer e st changes w of
        Inl err \<Rightarrow> None
      | Inr (ch', w') \<Rightarrow> Some (apply_changes st ch', w'))"

subsection \<open>The render function: query, results and the last-viewed fallback\<close>

text \<open>
  \<open>String.prototype.trim\<close> on strings of one-byte characters: the white space and line
  terminator code points below 256.
\<close>

definition is_white_space :: "char \<Rightarrow> bool" where
  "is_white_space c = (c \<in> {CHR 0x09, CHR 0x0A, CHR 0x0B, CHR 0x0C, CHR 0x0D, CHR 0x20, CHR 0xA0})"

definition trim :: "string \<Rightarrow> string" where
  "trim s = rev (dropWhile is_white_space (rev (dropWhile is_white_space s)))"

text \<open>
  Modelled from the spec: \<open>searchItem\<close> lives in \<open>utils/tree\<close>, outside the sources at hand.
  A search item is the "flattened, search-ready projection of an indexed item" with the
  \<open>refId\<close> of the reference dataset it is taken from.
\<close>

definition searchItem :: "index_item \<Rightarrow> ref_data \<Rightarrow> search_item" where
  "searchItem it data =
     \<lparr>item_id = item_id it, item_name = item_name it, item_type = item_type it,
      item_parent = item_parent it, refId = ref_id data\<rparr>"

text \<open>A property key: \<open>undefined\<close> used as a key is the string \<open>"undefined"\<close>.\<close>

definition index_key :: "string option \<Rightarrow> string" where
  "index_key p = (case p of None \<Rightarrow> ''undefined'' | Some k \<Rightarrow> k)"

text \<open>
  A property read \<open>obj[key]\<close> on an ordinary object finds the object's own property, or
  else what the object inherits from \<open>Object.prototype\<close>, or else nothing. The inherited
  members are functions, and under \<open>__proto__\<close> the prototype object itself: all truthy, and
  none has a property \<open>index\<close>, \<open>type\<close>, \<open>parent\<close> or \<open>id\<close>.
\<close>

datatype 'a js_prop = Undefined | Member string | Own 'a

definition Object_prototype :: "string list" where
  "Object_prototype =
     [''constructor'', ''__proto__'', ''hasOwnProperty'', ''isPrototypeOf'',
      ''propertyIsEnumerable'', ''toLocaleString'', ''toString'', ''valueOf'',
      ''__defineGetter__'', ''__defineSetter__'', ''__lookupGetter__'', ''__lookupSetter__'']"

definition prop_get :: "(string \<times> 'a) list \<Rightarrow> string \<Rightarrow> 'a js_prop" where
  "prop_get obj k =
     (case map_of obj k of
        Some v \<Rightarrow> Own v
      | None \<Rightarrow> if k \<in> set Object_prototype then Member k else Undefined)"

text \<open>
  An entry of the history's result list: a search result, or the object pushed for a member
  of \<open>Object.prototype\<close>, whose item has the \<open>refId\<close> and no \<open>id\<close>. The rendered list holds
  either those or the items of \<open>getResults\<close>.
\<close>

datatype history_result = History search_result | History_member string

fun res_refId :: "history_result \<Rightarrow> string" where
  "res_refId (History r) = refId (item r)"
| "res_refId (History_member rid) = rid"

fun res_id :: "history_result \<Rightarrow> string option" where
  "res_id (History r) = Some (item_id (item r))"
| "res_id (History_member rid) = None"

datatype rendered = Listed downshift_item | Member_entry string

fun rendered_of :: "history_result \<Rightarrow> rendered" where
  "rendered_of (History r) = Listed (Result r)"
| "rendered_of (History_member rid) = Member_entry rid"

text \<open>
  Modelled from the spec: \<open>searchItem\<close> applied to what the lookup returned. The projection
  reads the item's fields: on \<open>undefined\<close> that read raises a \<open>TypeError\<close>; a member of
  \<open>Object.prototype\<close> has none of the fields, and the entry keeps only the \<open>refId\<close>.
\<close>

definition history_entry :: "index_item js_prop \<Rightarrow> ref_data \<Rightarrow> error + history_result" where
  "history_entry it data =
     (case it of
        Undefined \<Rightarrow> Inl (TypeError ''searchItem'')
      | Member k \<Rightarrow> Inr (History_member (ref_id data))
      | Own i \<Rightarrow> Inr (History \<lparr>item = searchItem i data, matches = [], score = 0\<rparr>))"

text \<open>
  \<open>acc.some((res) => res.item.refId === refId && res.item.id === item.id)\<close>. The right
  operand of \<open>&&\<close> is evaluated only after the left one held; there \<open>item.id\<close> on a missing
  item raises, and on a member of \<open>Object.prototype\<close> it is \<open>undefined\<close>. \<open>some\<close> stops at
  the first entry for which the callback holds, and calls nothing on an empty list.
\<close>

fun acc_some :: "history_result list \<Rightarrow> string \<Rightarrow> index_item js_prop \<Rightarrow> error + bool" where
  "acc_some [] rid it = Inr False"
| "acc_some (res # acc) rid it =
     (if res_refId res = rid
      then (case it of
              Undefined \<Rightarrow> Inl (TypeError ''id'')
            | Member k \<Rightarrow> if res_id res = None then Inr True else acc_some acc rid it
            | Own i \<Rightarrow> if res_id res = Some (item_id i) then Inr True else acc_some acc rid it)
      else acc_some acc rid it)"

text \<open>
  One round of the \<open>reduce\<close> over the history. A reference found only on the prototype has
  no \<open>index\<close> and the record is skipped. A story found only on the prototype has no \<open>type\<close>,
  so it resolves to itself.
\<close>

definition lastViewed_step ::
  "combined_dataset \<Rightarrow> history_result list \<Rightarrow> selection \<Rightarrow> error + history_result list" where
  "lastViewed_step dataset acc sel =
     (case sel of (storyId, rid) \<Rightarrow>
        (case prop_get (hash dataset) rid of
           Undefined \<Rightarrow> Inr acc
         | Member k \<Rightarrow> Inr acc
         | Own data \<Rightarrow>
             (case index data of
                None \<Rightarrow> Inr acc
              | Some idx \<Rightarrow>
                  (case prop_get idx storyId of
                     Undefined \<Rightarrow> Inr acc
                   | story \<Rightarrow>
                       (let it = (case story of
                                    Own s \<Rightarrow>
                                      if item_type s = Story
                                      then prop_get idx (index_key (item_parent s))
                                      else story
                                  | other \<Rightarrow> story)
                        in case acc_some acc rid it of
                             Inl err \<Rightarrow> Inl err
                           | Inr True \<Rightarrow> Inr acc
                           | Inr False \<Rightarrow>
                               (case history_entry it data of
                                  Inl err \<Rightarrow> Inl err
                                | Inr entry \<Rightarrow> Inr (acc @ [entry])))))))"

fun lastViewed_reduce ::
  "combined_dataset \<Rightarrow> history_result list \<Rightarrow> selection list \<Rightarrow> error + history_result list" where
  "lastViewed_reduce dataset acc [] = Inr acc"
| "lastViewed_reduce dataset acc (sel # sels) =
     (case lastViewed_step dataset acc sel of
        Inl err \<Rightarrow> Inl err
      | Inr acc' \<Rightarrow> lastViewed_reduce dataset acc' sels)"

text \<open>
  The results a render hands to its children: \<open>input\<close> is the trimmed input value,
  \<open>getResults\<close> runs only on a non-empty \<open>input\<close>, and the history returned by
  \<open>getLastViewed()\<close> replaces the results when \<open>input\<close> is empty and the history is not.
\<close>

definition render_results ::
  "(string \<Rightarrow> search_result list) \<Rightarrow> combined_dataset \<Rightarrow> selection list \<Rightarrow> string option \<Rightarrow> world
     \<Rightarrow> (error + rendered list) \<times> world" where
  "render_results fuse dataset getLastViewed inputVal w =
     (let input = (case inputVal of None \<Rightarrow> [] | Some v \<Rightarrow> if v \<noteq> [] then trim v else []);
          (results, w1) = (if input \<noteq> [] then getResults fuse input w else ([], w))
      in if input = [] \<and> getLastViewed \<noteq> []
         then (case lastViewed_reduce dataset [] getLastViewed of
                 Inl err \<Rightarrow> (Inl err, w1)
               | Inr acc \<Rightarrow> (Inr (map rendered_of acc), w1))
         else (Inr (map Listed results), w1))"

text \<open>The ids of the rendered entries; \<open>None\<close> for an entry without one.\<close>

fun rendered_id :: "rendered \<Rightarrow> string option" where
  "rendered_id (Listed (Result r)) = Some (item_id (item r))"
| "rendered_id other = None"

text \<open>An input value that is absent, empty or made of white space only.\<close>

definition blank :: "string option \<Rightarrow> bool" where
  "blank v = (case v of None \<Rightarrow> True | Some s \<Rightarrow> list_all is_white_space s)"

subsection \<open>The last-viewed fallback in the words of the specification\<close>

text \<open>
  A selection record resolves to the reference id, the resolved item and the reference
  dataset: the story's parent for a story, the item itself otherwise. A record whose
  reference, index, story or parent is absent does not resolve. Present means an entry of
  the dictionary, as the specification has it.
\<close>

type_synonym resolved = "string \<times> index_item \<times> ref_data"

definition resolve :: "combined_dataset \<Rightarrow> selection \<Rightarrow> resolved option" where
  "resolve dataset sel =
     (case sel of (storyId, rid) \<Rightarrow>
        (case map_of (hash dataset) rid of
           None \<Rightarrow> None
         | Some data \<Rightarrow>
             (case index data of
                None \<Rightarrow> None
              | Some idx \<Rightarrow>
                  (case map_of idx storyId of
                     None \<Rightarrow> None
                   | Some story \<Rightarrow>
                       if item_type story = Story
                       then (case item_parent story of
                               None \<Rightarrow> None
                             | Some p \<Rightarrow>
                                 (case map_of idx p of
                                    None \<Rightarrow> None
                                  | Some par \<Rightarrow> Some (rid, par, data)))
                       else Some (rid, story, data)))))"

definition entry_key :: "resolved \<Rightarrow> string \<times> string" where
  "entry_key e = (case e of (rid, it, data) \<Rightarrow> (rid, item_id it))"

text \<open>Keep the first entry of every key, in the order of the list.\<close>

fun dedup_first :: "(string \<times> string) set \<Rightarrow> resolved list \<Rightarrow> resolved list" where
  "dedup_first seen [] = []"
| "dedup_first seen (e # es) =
     (if entry_key e \<in> seen then dedup_first seen es
      else e # dedup_first (insert (entry_key e) seen) es)"

definition wrap_entry :: "resolved \<Rightarrow> search_result" where
  "wrap_entry e = (case e of (rid, it, data) \<Rightarrow> \<lparr>item = searchItem it data, matches = [], score = 0\<rparr>)"

definition spec_lastViewed :: "combined_dataset \<Rightarrow> selection list \<Rightarrow> search_result list" where
  "spec_lastViewed dataset sels =
     map wrap_entry (dedup_first {} (List.map_filter (resolve dataset) sels))"

text \<open>
  Conditions on the data. The lookup of the combined dataset is keyed by each reference's
  own id; a record that reaches a story finds the story's parent id among the own keys of
  the same index; no story id of the history is the name of a member of \<open>Object.prototype\<close>.
\<close>

definition hash_keyed :: "combined_dataset \<Rightarrow> bool" where
  "hash_keyed dataset = list_all (\<lambda>(k, data). ref_id data = k) (hash dataset)"

definition parent_present :: "combined_dataset \<Rightarrow> selection \<Rightarrow> bool" where
  "parent_present dataset sel =
     (case sel of (storyId, rid) \<Rightarrow>
        (case map_of (hash dataset) rid of
           None \<Rightarrow> True
         | Some data \<Rightarrow>
             (case index data of
                None \<Rightarrow> True
              | Some idx \<Rightarrow>
                  (case map_of idx storyId of
                     None \<Rightarrow> True
                   | Some story \<Rightarrow>
                       if item_type story = Story
                       then (case item_parent story of
                               None \<Rightarrow> False
                             | Some p \<Rightarrow> map_of idx p \<noteq> None)
                       else True))))"

definition plain_story_id :: "selection \<Rightarrow> bool" where
  "plain_story_id sel = (fst sel \<notin> set Object_prototype)"


text \<open>The pairs of refId and id of the entries accepted so far.\<close>

definition acc_keys :: "history_result list \<Rightarrow> (string \<times> string) set" where
  "acc_keys acc = {(rid, i). \<exists>res \<in> set acc. res_refId res = rid \<and> res_id res = Some i}"

subsection \<open>Example data\<close>

definition mk_item :: "string \<Rightarrow> entry_type \<Rightarrow> string option \<Rightarrow> index_item" where
  "mk_item i t p = \<lparr>item_id = i, item_name = i, item_type = t, item_parent = p\<rparr>"

definition mk_result :: "string \<Rightarrow> entry_type \<Rightarrow> string option \<Rightarrow> search_result" where
  "mk_result i t p =
     \<lparr>item = \<lparr>item_id = i, item_name = i, item_type = t, item_parent = p, refId = ''r1''\<rparr>,
      matches = [], score = 0\<rparr>"

definition world0 :: world where
  "world0 = \<lparr>allComponents = False, inputRef = Some True, search_calls = [],
             selectStory_calls = []\<rparr>"

definition env0 :: env where
  "env0 = \<lparr>api = True, DEFAULT_REF_ID = ''storybook_internal''\<rparr>"

definition state0 :: downshift_state where
  "state0 = \<lparr>highlightedIndex = None, inputValue = Some ''but'', isOpen = True,
             selectedItem = None\<rparr>"

text \<open>Two stories of one component, the component itself not among the matches.\<close>

definition siblings :: "search_result list" where
  "siblings = [mk_result ''a'' Story (Some ''c''), mk_result ''b'' Story (Some ''c'')]"

text \<open>A component ranked ahead of its story, and a story of another component.\<close>

definition ranked :: "search_result list" where
  "ranked = [mk_result ''g'' Group None, mk_result ''c'' Component (Some ''g''),
             mk_result ''a'' Story (Some ''c''), mk_result ''b'' Story (Some ''k'')]"

text \<open>Fifty-one matches, all accepted.\<close>

definition many :: "search_result list" where
  "many = replicate 51 (mk_result ''c'' Component None)"

text \<open>
  The dataset of the history resolution example: story \<open>s1\<close> with parent \<open>c1\<close>, component
  \<open>c1\<close>, a second story and a docs entry; and a dataset in which \<open>c1\<close> is missing.
\<close>

definition dataset1 :: combined_dataset where
  "dataset1 =
     (let r1 = \<lparr>ref_id = ''r1'',
                index = Some [(''c1'', mk_item ''c1'' Component None),
                              (''s1'', mk_item ''s1'' Story (Some ''c1'')),
                              (''s2'', mk_item ''s2'' Story (Some ''c1'')),
                              (''d1'', mk_item ''d1'' Docs (Some ''c1''))]\<rparr>
      in \<lparr>hash = [(''r1'', r1)], entries = [(''r1'', r1)]\<rparr>)"

definition history1 :: "selection list" where
  "history1 = [(''s1'', ''r1''), (''zz'', ''r1''), (''s2'', ''r1''), (''d1'', ''r1''), (''s1'', ''r9'')]"




section \<open>Properties\<close>

subsection \<open>Auxiliary facts about the result filter\<close>

lemma has_parent_None [simp]: "has_parent S None = False"
  by (simp add: has_parent_def)

lemma has_parent_Some [simp]: "has_parent S (Some p) = (p \<in> S)"
  by (simp add: has_parent_def)

lemma distinctResults_walk_seen:
  "distinctResults S ms = walk_seen S (keep_searchable ms)"
  by (induction ms arbitrary: S)
     (auto simp: keep_searchable_def searchable_type_def split: option.splits)

lemma results_of_map_Result [simp]: "results_of (map Result rs) = rs"
  by (induction rs) auto

lemma results_of_append [simp]: "results_of (xs @ ys) = results_of xs @ results_of ys"
  by (induction xs rule: results_of.induct) auto

lemma markers_of_map_Result [simp]: "markers_of (map Result rs) = []"
  by (induction rs) auto

lemma markers_of_append [simp]: "markers_of (xs @ ys) = markers_of xs @ markers_of ys"
  by (induction xs rule: markers_of.induct) auto

lemma getResults_results_of:
  "input \<noteq> [] \<Longrightarrow>
   results_of (fst (getResults fuse input w)) =
     take (if allComponents w then 1000 else 50) (distinctResults {} (fuse input))"
  by (simp add: getResults_def Let_def DEFAULT_MAX_SEARCH_RESULTS_def)

lemma distinctResults_parent_unseen:
  "r \<in> set (distinctResults S ms) \<Longrightarrow> \<not> has_parent S (item_parent (item r))"
proof (induction ms arbitrary: S)
  case Nil
  then show ?case by simp
next
  case (Cons m ms)
  then show ?case
    by (fastforce simp: has_parent_def split: if_splits option.splits)
qed

lemma distinctResults_no_child_after_parent:
  "i < j \<Longrightarrow> j < length (distinctResults S ms) \<Longrightarrow>
   item_parent (item (distinctResults S ms ! j)) \<noteq> Some (item_id (item (distinctResults S ms ! i)))"
proof (induction ms arbitrary: S i j)
  case Nil
  then show ?case by simp
next
  case (Cons r rs)
  show ?case
  proof (cases "\<not> searchable_type (item_type (item r)) \<or> has_parent S (item_parent (item r))")
    case True
    with Cons show ?thesis by simp
  next
    case False
    let ?T = "insert (item_id (item r)) S"
    have eq: "distinctResults S (r # rs) = r # distinctResults ?T rs"
      using False by simp
    from Cons.prems eq obtain j' where j': "j = Suc j'" "j' < length (distinctResults ?T rs)"
      by (cases j) auto
    show ?thesis
    proof (cases i)
      case 0
      have "distinctResults ?T rs ! j' \<in> set (distinctResults ?T rs)"
        using j' by simp
      then have "\<not> has_parent ?T (item_parent (item (distinctResults ?T rs ! j')))"
        by (rule distinctResults_parent_unseen)
      then show ?thesis
        using 0 j' eq by (auto simp: has_parent_def split: option.splits)
    next
      case (Suc i')
      then have "i' < j'" using Cons.prems j' by simp
      from Cons.IH [OF this j'(2)] show ?thesis
        using Suc j' eq by simp
    qed
  qed
qed

lemma distinctResults_all_accepted:
  "\<forall>r \<in> set ms. searchable_type (item_type (item r)) \<and> item_parent (item r) = None \<Longrightarrow>
   distinctResults S ms = ms"
  by (induction ms arbitrary: S) auto

lemma distinctResults_many: "distinctResults {} many = many"
  by (rule distinctResults_all_accepted)
     (simp add: many_def mk_result_def searchable_type_def)

lemma distinctResults_ranked:
  "distinctResults {} ranked = [mk_result ''c'' Component (Some ''g''), mk_result ''b'' Story (Some ''k'')]"
  by (simp add: ranked_def mk_result_def searchable_type_def)

lemma getResults_marker_showAll:
  "Expand m \<in> set (fst (getResults fuse input w)) \<Longrightarrow> showAll m = ShowAllComponents True"
  by (auto simp: getResults_def Let_def split: if_splits)

subsection \<open>Auxiliary facts about the query and the history\<close>

lemma trim_blank: "list_all is_white_space s \<Longrightarrow> trim s = []"
proof -
  assume "list_all is_white_space s"
  then have d: "dropWhile is_white_space s = []"
    by (simp add: list_all_iff)
  show ?thesis unfolding trim_def d by simp
qed

lemma render_input_blank:
  "blank v \<Longrightarrow> (case v of None \<Rightarrow> [] | Some s \<Rightarrow> if s \<noteq> [] then trim s else []) = []"
  by (cases v) (simp_all add: blank_def trim_blank)

lemma render_results_blank:
  "blank v \<Longrightarrow>
   render_results fuse dataset sels v w =
     (case lastViewed_reduce dataset [] sels of
        Inl err \<Rightarrow> (Inl err, w)
      | Inr acc \<Rightarrow> (Inr (map rendered_of acc), w))"
  by (cases sels) (simp_all add: render_results_def render_input_blank)

lemma prop_get_own: "map_of obj k = Some v \<Longrightarrow> prop_get obj k = Own v"
  by (simp add: prop_get_def)

lemma prop_get_plain:
  "k \<notin> set Object_prototype \<Longrightarrow>
   prop_get obj k = (case map_of obj k of None \<Rightarrow> Undefined | Some v \<Rightarrow> Own v)"
  by (simp add: prop_get_def split: option.splits)

lemma acc_keys_Nil [simp]: "acc_keys [] = {}"
  by (simp add: acc_keys_def)

lemma acc_keys_snoc_History:
  "acc_keys (acc @ [History r]) = insert (refId (item r), item_id (item r)) (acc_keys acc)"
  by (auto simp: acc_keys_def)

lemma acc_some_own: "acc_some acc rid (Own i) = Inr ((rid, item_id i) \<in> acc_keys acc)"
  by (induction acc) (auto simp: acc_keys_def)








lemma lastViewed_step_resolve:
  assumes "parent_present dataset sel" and "plain_story_id sel"
  shows "lastViewed_step dataset acc sel =
     (case resolve dataset sel of
        None \<Rightarrow> Inr acc
      | Some e \<Rightarrow>
          if entry_key e \<in> acc_keys acc then Inr acc
          else Inr (acc @ [History (wrap_entry e)]))"
proof -
  obtain storyId rid where sel: "sel = (storyId, rid)" by (cases sel)
  from assms(2) sel have plain: "storyId \<notin> set Object_prototype"
    by (simp add: plain_story_id_def)
  show ?thesis
  proof (cases "map_of (hash dataset) rid")
    case None
    then have "prop_get (hash dataset) rid = Undefined \<or> (\<exists>k. prop_get (hash dataset) rid = Member k)"
      by (simp add: prop_get_def)
    with None show ?thesis
      by (auto simp: lastViewed_step_def Let_def resolve_def sel)
  next
    case (Some data)
    note data = Some
    then have pg: "prop_get (hash dataset) rid = Own data" by (rule prop_get_own)
    show ?thesis
    proof (cases "index data")
      case None
      with data pg show ?thesis by (simp add: lastViewed_step_def Let_def resolve_def sel)
    next
      case (Some idx)
      note idx = Some
      show ?thesis
      proof (cases "map_of idx storyId")
        case None
        with plain have "prop_get idx storyId = Undefined" by (simp add: prop_get_plain)
        with None data pg idx show ?thesis by (simp add: lastViewed_step_def Let_def resolve_def sel)
      next
        case (Some story)
        then have ps: "prop_get idx storyId = Own story" by (rule prop_get_own)
        show ?thesis
        proof (cases "item_type story = Story")
          case False
          with Some ps data pg idx show ?thesis
            by (simp add: lastViewed_step_def Let_def resolve_def sel acc_some_own history_entry_def
                wrap_entry_def entry_key_def)
        next
          case True
          with assms(1) Some data idx obtain p par where
            p: "item_parent story = Some p" "map_of idx p = Some par"
            by (auto simp: parent_present_def sel split: option.splits)
          then have "prop_get idx (index_key (item_parent story)) = Own par"
            by (simp add: index_key_def prop_get_own)
          with True Some ps data pg idx p show ?thesis
            by (simp add: lastViewed_step_def Let_def resolve_def sel acc_some_own history_entry_def
                wrap_entry_def entry_key_def)
        qed
      qed
    qed
  qed
qed

lemma resolve_wrap_key:
  assumes "hash_keyed dataset" and "resolve dataset sel = Some e"
  shows "(refId (item (wrap_entry e)), item_id (item (wrap_entry e))) = entry_key e"
proof -
  obtain storyId rid where sel: "sel = (storyId, rid)" by (cases sel)
  obtain rid' it data where e: "e = (rid', it, data)" by (cases e)
  from assms(2) sel e have "map_of (hash dataset) rid = Some data" and "rid' = rid"
    by (auto simp: resolve_def split: option.splits if_splits)
  then have "(rid, data) \<in> set (hash dataset)" by (simp add: map_of_SomeD)
  with assms(1) have "ref_id data = rid"
    by (auto simp: hash_keyed_def list_all_iff)
  with e \<open>rid' = rid\<close> show ?thesis
    by (simp add: wrap_entry_def entry_key_def searchItem_def)
qed

lemma lastViewed_reduce_spec:
  "hash_keyed dataset \<Longrightarrow> list_all (parent_present dataset) sels \<Longrightarrow>
   list_all plain_story_id sels \<Longrightarrow>
   lastViewed_reduce dataset acc sels =
     Inr (acc @ map (History \<circ> wrap_entry)
            (dedup_first (acc_keys acc) (List.map_filter (resolve dataset) sels)))"
proof (induction sels arbitrary: acc)
  case Nil
  then show ?case by (simp add: List.map_filter_simps)
next
  case (Cons sel sels)
  from Cons.prems have pp: "parent_present dataset sel" and pl: "plain_story_id sel"
    and rest: "list_all (parent_present dataset) sels" "list_all plain_story_id sels"
    by simp_all
  note IH = Cons.IH [OF Cons.prems(1) rest]
  note step = lastViewed_step_resolve [OF pp pl]
  show ?case
  proof (cases "resolve dataset sel")
    case None
    with IH show ?thesis
      by (simp add: step List.map_filter_simps)
  next
    case (Some e)
    note key = resolve_wrap_key [OF Cons.prems(1) Some]
    show ?thesis
    proof (cases "entry_key e \<in> acc_keys acc")
      case True
      with Some IH show ?thesis
        by (simp add: step List.map_filter_simps)
    next
      case False
      with Some IH [of "acc @ [History (wrap_entry e)]"] key show ?thesis
        by (simp add: step List.map_filter_simps acc_keys_snoc_History)
    qed
  qed
qed

lemma dataset1_ok:
  "hash_keyed dataset1 \<and> list_all (parent_present dataset1) history1 \<and>
   list_all plain_story_id history1"
  by (simp add: hash_keyed_def parent_present_def plain_story_id_def Object_prototype_def
      dataset1_def history1_def mk_item_def Let_def)

lemma spec_lastViewed_dataset1:
  "map (\<lambda>r. (item_id (item r), refId (item r), matches r, score r)) (spec_lastViewed dataset1 history1) =
     [(''c1'', ''r1'', [], 0), (''d1'', ''r1'', [], 0)]"
  by (simp add: spec_lastViewed_def List.map_filter_simps resolve_def dataset1_def history1_def
      mk_item_def entry_key_def wrap_entry_def searchItem_def Let_def)





subsection \<open>Auxiliary facts about the reducer\<close>

lemma selectStory_mounted:
  "inputRef w = Some f \<Longrightarrow>
   selectStory e sid rid w =
     Inr (w\<lparr>selectStory_calls := selectStory_calls w @
               (if api e then [(sid, if rid \<noteq> DEFAULT_REF_ID e then Some rid else None)] else []),
            inputRef := Some False, allComponents := False\<rparr>)"
  by (simp add: selectStory_def blur_def Let_def)

lemma apply_no_changes: "apply_changes st no_changes = st"
  by (simp add: apply_changes_def no_changes_def)

subsection \<open>The result filter\<close>

text \<open>
  C1, as the specification states it: the result sequence of \<open>getResults\<close> never holds two
  entries whose items share a \<open>parent\<close> id. The code refutes it: two stories of component
  \<open>c\<close>, matched while \<open>c\<close> itself is not, are both returned.
\<close>

theorem siblings_share_parent:
  "\<not> no_shared_parent (fst (getResults (\<lambda>q. siblings) ''primary'' world0))"
  by (simp add: getResults_def no_shared_parent_def parent_ids_def siblings_def mk_result_def
      world0_def searchable_type_def DEFAULT_MAX_SEARCH_RESULTS_def)

text \<open>
  C1, amended: in the result sequence of \<open>getResults\<close>, no entry's item has as \<open>parent\<close> the
  \<open>id\<close> of an entry that stands before it. An accepted item hides the later matches
  that are its children; children of an item that was not accepted are all kept.
\<close>

theorem getResults_no_child_after_parent:
  "i < j \<Longrightarrow> j < length (results_of (fst (getResults fuse input w))) \<Longrightarrow>
   item_parent (item (results_of (fst (getResults fuse input w)) ! j))
     \<noteq> Some (item_id (item (results_of (fst (getResults fuse input w)) ! i)))"
proof (cases "input = []")
  case True
  assume "j < length (results_of (fst (getResults fuse input w)))"
  with True show ?thesis by (simp add: getResults_def)
next
  case False
  assume ij: "i < j" and j: "j < length (results_of (fst (getResults fuse input w)))"
  let ?ds = "distinctResults {} (fuse input)"
  let ?n = "if allComponents w then 1000 else 50"
  have eq: "results_of (fst (getResults fuse input w)) = take ?n ?ds"
    using False by (rule getResults_results_of)
  from j eq have jn: "j < ?n" and jl: "j < length ?ds" by simp_all
  with ij have "i < ?n" by simp
  with jn eq have "results_of (fst (getResults fuse input w)) ! j = ?ds ! j"
    "results_of (fst (getResults fuse input w)) ! i = ?ds ! i" by simp_all
  with distinctResults_no_child_after_parent [OF ij jl] show ?thesis by simp
qed

theorem getResults_no_child_after_parent_witness:
  "(0::nat) < 1 \<and>
   results_of (fst (getResults (\<lambda>q. ranked) ''button'' world0)) =
     [mk_result ''c'' Component (Some ''g''), mk_result ''b'' Story (Some ''k'')] \<and>
   item_parent (item (results_of (fst (getResults (\<lambda>q. ranked) ''button'' world0)) ! 1))
     \<noteq> Some (item_id (item (results_of (fst (getResults (\<lambda>q. ranked) ''button'' world0)) ! 0)))"
proof -
  have rs: "results_of (fst (getResults (\<lambda>q. ranked) ''button'' world0)) =
      [mk_result ''c'' Component (Some ''g''), mk_result ''b'' Story (Some ''k'')]"
    by (simp add: getResults_results_of distinctResults_ranked world0_def)
  then have len: "1 < length (results_of (fst (getResults (\<lambda>q. ranked) ''button'' world0)))"
    by simp
  have "(0::nat) < 1" by simp
  from getResults_no_child_after_parent [OF this len] rs show ?thesis by simp
qed

text \<open>
  C2: for a non-empty query, with \<open>ds\<close> the distinct matches, the search-result entries
  returned by \<open>getResults\<close> number at most 50 when \<open>allComponents\<close> ("show all") is false
  and at most 1000 when it is true; an expand marker is in the sequence exactly when
  \<open>ds\<close> has more than 50 entries and "show all" is false; there is then one marker, it
  stands last, its \<open>totalCount\<close> is the length of \<open>ds\<close> and its \<open>moreCount\<close> that length
  minus 50. The marker is counted apart from the capped results.
\<close>

theorem getResults_cap_and_marker:
  assumes "input \<noteq> []"
  shows "(let ds = distinctResults {} (fuse input); rs = fst (getResults fuse input w) in
          length (results_of rs) \<le> (if allComponents w then 1000 else 50) \<and>
          (markers_of rs \<noteq> []) = (length ds > 50 \<and> \<not> allComponents w) \<and>
          markers_of rs =
            (if length ds > 50 \<and> \<not> allComponents w
             then [\<lparr>showAll = ShowAllComponents True, totalCount = length ds,
                     moreCount = length ds - 50\<rparr>]
             else []) \<and>
          rs = map Result (results_of rs) @ map Expand (markers_of rs))"
  using assms
  by (simp add: getResults_def Let_def DEFAULT_MAX_SEARCH_RESULTS_def)

theorem getResults_cap_and_marker_witness:
  "''button'' \<noteq> [] \<and>
   length (distinctResults {} many) = 51 \<and>
   length (results_of (fst (getResults (\<lambda>q. many) ''button'' world0))) \<le> 50 \<and>
   markers_of (fst (getResults (\<lambda>q. many) ''button'' world0)) =
     [\<lparr>showAll = ShowAllComponents True, totalCount = 51, moreCount = 1\<rparr>] \<and>
   markers_of (fst (getResults (\<lambda>q. many) ''button'' (world0\<lparr>allComponents := True\<rparr>))) = []"
proof -
  have q: "''button'' \<noteq> []" by simp
  have len: "length (distinctResults {} many) = 51"
    by (simp add: distinctResults_many) (simp add: many_def)
  have a: "allComponents world0 = False" by (simp add: world0_def)
  from getResults_cap_and_marker [OF q, where fuse = "\<lambda>q. many" and w = world0]
    getResults_cap_and_marker [OF q, where fuse = "\<lambda>q. many"
      and w = "world0\<lparr>allComponents := True\<rparr>"] len a
  show ?thesis by (simp add: Let_def)
qed

text \<open>
  C3: the search-result entries returned by \<open>getResults\<close> are, up to the cap, what the
  specification's two steps compute: keep the matches of type component, docs or story;
  walk them in ranked order, skip a match whose \<open>parent\<close> id is in the seen set, and on
  accepting a match put its own \<open>id\<close> into the seen set.
\<close>

theorem getResults_filter_dedup_algorithm:
  "input \<noteq> [] \<Longrightarrow>
   results_of (fst (getResults fuse input w)) =
     take (if allComponents w then 1000 else 50) (spec_distinct (fuse input))"
  by (simp add: getResults_results_of spec_distinct_def distinctResults_walk_seen)

theorem getResults_filter_dedup_algorithm_witness:
  "''button'' \<noteq> [] \<and>
   results_of (fst (getResults (\<lambda>q. ranked) ''button'' world0)) = take 50 (spec_distinct ranked) \<and>
   spec_distinct ranked = [mk_result ''c'' Component (Some ''g''), mk_result ''b'' Story (Some ''k'')]"
proof -
  have q: "''button'' \<noteq> []" by simp
  have s: "spec_distinct ranked =
      [mk_result ''c'' Component (Some ''g''), mk_result ''b'' Story (Some ''k'')]"
    by (simp add: spec_distinct_def keep_searchable_def ranked_def mk_result_def)
  from getResults_filter_dedup_algorithm [OF q, where fuse = "\<lambda>q. ranked" and w = world0] s
  show ?thesis by (simp add: world0_def)
qed

subsection \<open>The empty query and the last-viewed fallback\<close>

text \<open>
  C4: for an input value that is absent, empty or white space only, \<open>fuse.search\<close> is not
  called (the log of its calls is unchanged; \<open>getResults\<close> on the empty query returns the
  empty list without searching), and the results handed to the children are those computed
  from the last-viewed history alone, whatever the search index holds.
\<close>

theorem empty_query_never_searches:
  "blank v \<Longrightarrow>
   getResults fuse [] w = ([], w) \<and>
   search_calls (snd (render_results fuse dataset sels v w)) = search_calls w \<and>
   render_results fuse dataset sels v w =
     (case lastViewed_reduce dataset [] sels of
        Inl err \<Rightarrow> (Inl err, w)
      | Inr acc \<Rightarrow> (Inr (map rendered_of acc), w))"
  by (simp add: render_results_blank getResults_def split: sum.splits)

theorem empty_query_never_searches_witness:
  "blank (Some ''  '') \<and>
   search_calls (snd (render_results (\<lambda>q. ranked) dataset1 history1 (Some ''  '') world0)) = [] \<and>
   map rendered_id
     (case fst (render_results (\<lambda>q. ranked) dataset1 history1 (Some ''  '') world0) of
        Inl err \<Rightarrow> [] | Inr rs \<Rightarrow> rs) = [Some ''c1'', Some ''d1'']"
proof -
  have b: "blank (Some ''  '')"
    by (simp add: blank_def is_white_space_def)
  have acc: "lastViewed_reduce dataset1 [] history1 =
      Inr (map (History \<circ> wrap_entry) (dedup_first {} (List.map_filter (resolve dataset1) history1)))"
    using lastViewed_reduce_spec [of dataset1 history1 "[]"] dataset1_ok by simp
  have ids: "map (rendered_id \<circ> rendered_of \<circ> History) (spec_lastViewed dataset1 history1) =
      [Some ''c1'', Some ''d1'']"
    using spec_lastViewed_dataset1 by (auto simp: map_eq_Cons_conv)
  from empty_query_never_searches [OF b, where fuse = "\<lambda>q. ranked" and w = world0
      and dataset = dataset1 and sels = history1] b acc ids
  show ?thesis by (simp add: world0_def spec_lastViewed_def comp_def)
qed







subsection \<open>The state reducer\<close>

text \<open>
  C5: in every state whose input text is non-empty, the Escape event leads to a state with
  empty input text, the list open and no selection, and leaves the input element alone.
  In every state whose input text is empty (or absent), Escape leads to a closed list and
  no selection, and the input element loses the focus.
\<close>

theorem escape_two_stage:
  "(truthy (inputValue st) \<longrightarrow>
      (case transition e st (KeyDownEscape, ch) w of
         None \<Rightarrow> False
       | Some (st', w') \<Rightarrow>
           inputValue st' = Some [] \<and> isOpen st' \<and> selectedItem st' = None \<and> w' = w)) \<and>
   (\<not> truthy (inputValue st) \<and> inputRef w = Some f \<longrightarrow>
      (case transition e st (KeyDownEscape, ch) w of
         None \<Rightarrow> False
       | Some (st', w') \<Rightarrow>
           \<not> isOpen st' \<and> selectedItem st' = None \<and> w' = w\<lparr>inputRef := Some False\<rparr>))"
  by (simp add: transition_def apply_changes_def blur_def)

theorem escape_two_stage_witness:
  "truthy (inputValue state0) \<and>
   transition env0 state0 (KeyDownEscape, no_changes) world0 =
     Some (state0\<lparr>inputValue := Some []\<rparr>, world0) \<and>
   \<not> truthy (inputValue (state0\<lparr>inputValue := Some []\<rparr>)) \<and> inputRef world0 = Some True \<and>
   transition env0 (state0\<lparr>inputValue := Some []\<rparr>) (KeyDownEscape, no_changes) world0 =
     Some (state0\<lparr>inputValue := Some [], isOpen := False\<rparr>, world0\<lparr>inputRef := Some False\<rparr>)"
proof -
  have t: "truthy (inputValue state0)" "\<not> truthy (inputValue (state0\<lparr>inputValue := Some []\<rparr>))"
    "inputRef world0 = Some True"
    by (simp_all add: truthy_def state0_def world0_def)
  from escape_two_stage [where st = state0 and e = env0 and ch = no_changes and w = world0]
    escape_two_stage [where st = "state0\<lparr>inputValue := Some []\<rparr>" and e = env0
      and ch = no_changes and w = world0 and f = True] t
  show ?thesis
    by (simp add: transition_def apply_changes_def blur_def no_changes_def state0_def world0_def truthy_def)
qed

text \<open>
  C6: on an item click or the Enter key with a search result selected, while the input
  element is mounted, the reducer runs the navigation callback \<open>selectStory\<close> with exactly
  the item's \<open>id\<close> and \<open>refId\<close> (with a host API this is one call of \<open>api.selectStory\<close> for
  that id, its \<open>ref\<close> option being the refId unless that is \<open>DEFAULT_REF_ID\<close>), the input
  loses the focus, "show all" is reset to false, and in the resulting state the input
  text is the one from before and the list is closed.
\<close>

theorem select_result_navigates:
  assumes "ty = ClickItem \<or> ty = KeyDownEnter"
    and "ch_selectedItem ch = Some (Some (Result r))"
    and "inputRef w = Some f"
  shows "case transition e st (ty, ch) w of
           None \<Rightarrow> False
         | Some (st', w') \<Rightarrow>
             selectStory e (item_id (item r)) (refId (item r)) w = Inr w' \<and>
             selectStory_calls w' = selectStory_calls w @
               (if api e
                then [(item_id (item r),
                       if refId (item r) \<noteq> DEFAULT_REF_ID e then Some (refId (item r)) else None)]
                else []) \<and>
             inputRef w' = Some False \<and> \<not> allComponents w' \<and>
             inputValue st' = inputValue st \<and> \<not> isOpen st'"
  using assms
  by (auto simp: transition_def select_item_def selectStory_mounted apply_changes_def)

theorem select_result_navigates_witness:
  "inputRef world0 = Some True \<and>
   (case transition env0 state0
           (KeyDownEnter, no_changes\<lparr>ch_selectedItem := Some (Some (Result (mk_result ''btn--primary'' Story (Some ''btn''))))\<rparr>)
           world0 of
      None \<Rightarrow> False
    | Some (st', w') \<Rightarrow>
        selectStory_calls w' = [(''btn--primary'', Some ''r1'')] \<and>
        inputRef w' = Some False \<and> \<not> allComponents w' \<and> inputValue st' = Some ''but'')"
proof -
  let ?ch = "no_changes\<lparr>ch_selectedItem := Some (Some (Result (mk_result ''btn--primary'' Story (Some ''btn''))))\<rparr>"
  have m: "inputRef world0 = Some True" by (simp add: world0_def)
  have s: "ch_selectedItem ?ch = Some (Some (Result (mk_result ''btn--primary'' Story (Some ''btn''))))"
    by simp
  from select_result_navigates [OF disjI2 [OF refl] s m, where e = env0 and st = state0] m
  show ?thesis
    by (auto simp: env0_def world0_def state0_def mk_result_def split: option.splits)
qed

text \<open>
  C8: on an item click or the Enter key with an expand marker selected, the reducer runs
  the marker's \<open>showAll\<close> action and answers with the empty partial state, so that every
  field of the container state stays as it was; for a marker made by \<open>getResults\<close> the
  action sets "show all" to true.
\<close>

theorem expand_marker_vetoes:
  assumes "ty = ClickItem \<or> ty = KeyDownEnter"
    and "ch_selectedItem ch = Some (Some (Expand m))"
  shows "stateReducer e st (ty, ch) w = Inr (no_changes, run_action (showAll m) w) \<and>
         transition e st (ty, ch) w = Some (st, run_action (showAll m) w) \<and>
         (Expand m \<in> set (fst (getResults fuse input w0)) \<longrightarrow>
            run_action (showAll m) w = w\<lparr>allComponents := True\<rparr>)"
  using assms getResults_marker_showAll [of m fuse input w0]
  by (auto simp: transition_def select_item_def apply_no_changes)

theorem expand_marker_vetoes_witness:
  "Expand \<lparr>showAll = ShowAllComponents True, totalCount = 51, moreCount = 1\<rparr>
     \<in> set (fst (getResults (\<lambda>q. many) ''button'' world0)) \<and>
   transition env0 state0
     (ClickItem, no_changes\<lparr>ch_selectedItem :=
        Some (Some (Expand \<lparr>showAll = ShowAllComponents True, totalCount = 51, moreCount = 1\<rparr>)),
        ch_isOpen := Some False\<rparr>) world0 =
     Some (state0, world0\<lparr>allComponents := True\<rparr>)"
proof -
  let ?m = "\<lparr>showAll = ShowAllComponents True, totalCount = 51, moreCount = 1\<rparr>"
  let ?ch = "no_changes\<lparr>ch_selectedItem := Some (Some (Expand ?m)), ch_isOpen := Some False\<rparr>"
  have len: "length many = 51" "many \<noteq> []" by (simp_all add: many_def)
  have mem: "Expand ?m \<in> set (fst (getResults (\<lambda>q. many) ''button'' world0))"
    by (simp add: getResults_def Let_def distinctResults_many len DEFAULT_MAX_SEARCH_RESULTS_def
        world0_def)
  have s: "ch_selectedItem ?ch = Some (Some (Expand ?m))" by simp
  from expand_marker_vetoes [OF disjI1 [OF refl] s, where e = env0 and st = state0 and w = world0
      and fuse = "\<lambda>q. many" and input = "''button''" and ?w0.0 = world0] mem
  show ?thesis by simp
qed

text \<open>
  C9: while the host API is absent, a selection (an item click or the Enter key with a
  search result selected, the input element mounted) raises no error: the reducer
  returns a next state, \<open>api.selectStory\<close> is not called, and what remains of the selection
  is the blur of the input and the reset of "show all".
\<close>

theorem missing_api_guard:
  assumes "\<not> api e"
    and "inputRef w = Some f"
    and "ty = ClickItem \<or> ty = KeyDownEnter"
    and "ch_selectedItem ch = Some (Some (Result r))"
  shows "selectStory e (item_id (item r)) (refId (item r)) w =
           Inr (w\<lparr>inputRef := Some False, allComponents := False\<rparr>) \<and>
         (case transition e st (ty, ch) w of
            None \<Rightarrow> False
          | Some (st', w') \<Rightarrow>
              selectStory_calls w' = selectStory_calls w \<and>
              w' = w\<lparr>inputRef := Some False, allComponents := False\<rparr>)"
  using assms
  by (auto simp: transition_def select_item_def selectStory_mounted)

theorem missing_api_guard_witness:
  "\<not> api (env0\<lparr>api := False\<rparr>) \<and> inputRef world0 = Some True \<and>
   (case transition (env0\<lparr>api := False\<rparr>) state0
           (ClickItem, no_changes\<lparr>ch_selectedItem := Some (Some (Result (mk_result ''btn--primary'' Story (Some ''btn''))))\<rparr>)
           world0 of
      None \<Rightarrow> False
    | Some (st', w') \<Rightarrow> selectStory_calls w' = [] \<and> inputRef w' = Some False)"
proof -
  let ?ch = "no_changes\<lparr>ch_selectedItem := Some (Some (Result (mk_result ''btn--primary'' Story (Some ''btn''))))\<rparr>"
  have a: "\<not> api (env0\<lparr>api := False\<rparr>)" by simp
  have m: "inputRef world0 = Some True" by (simp add: world0_def)
  have s: "ch_selectedItem ?ch = Some (Some (Result (mk_result ''btn--primary'' Story (Some ''btn''))))"
    by simp
  from missing_api_guard [OF a m disjI1 [OF refl] s, where st = state0] a m
  show ?thesis
    by (auto simp: world0_def split: option.splits)
qed

end
